theory Spec2Isabelle
  imports Main
begin

section \<open>JavaScript values and strings\<close>

text \<open>
  The error caught in the retry loops has type \<open>any\<close>. Only the parts of a JavaScript value
  that \<open>parseGeminiError\<close> and the payload checks read are modelled: the primitive kinds, and
  objects as association lists from property names to values. Numbers are integers (the
  status codes of the service); \<open>NaN\<close> and fractions are left out. Strings are lists of
  8-bit characters, and the two case conversions change the ASCII letters only.
\<close>

datatype js_value =
    JUndefined
  | JNull
  | JBool bool
  | JNum int
  | JStr string
  | JObj "(string \<times> js_value) list"

text \<open>Truthiness, as used by \<open>&&\<close>, \<open>!\<close> and \<open>if\<close>.\<close>

fun truthy :: "js_value \<Rightarrow> bool" where
  "truthy JUndefined = False"
| "truthy JNull = False"
| "truthy (JBool b) = b"
| "truthy (JNum n) = (n \<noteq> 0)"
| "truthy (JStr s) = (s \<noteq> [])"
| "truthy (JObj fs) = True"

text \<open>Property read \<open>v.name\<close> on a value that is not null or undefined.\<close>

fun getProp :: "js_value \<Rightarrow> string \<Rightarrow> js_value" where
  "getProp (JObj fs) name = (case map_of fs name of None \<Rightarrow> JUndefined | Some v \<Rightarrow> v)"
| "getProp v name = JUndefined"

definition toLowerCase :: "string \<Rightarrow> string" where
  "toLowerCase s =
     map (\<lambda>c. case map_of (zip ''ABCDEFGHIJKLMNOPQRSTUVWXYZ'' ''abcdefghijklmnopqrstuvwxyz'') c of
               None \<Rightarrow> c | Some l \<Rightarrow> l) s"

definition toUpperCase :: "string \<Rightarrow> string" where
  "toUpperCase s =
     map (\<lambda>c. case map_of (zip ''abcdefghijklmnopqrstuvwxyz'' ''ABCDEFGHIJKLMNOPQRSTUVWXYZ'') c of
               None \<Rightarrow> c | Some u \<Rightarrow> u) s"

fun startsWith :: "string \<Rightarrow> string \<Rightarrow> bool" where
  "startsWith s [] = True"
| "startsWith [] (p # ps) = False"
| "startsWith (c # cs) (p # ps) = (c = p \<and> startsWith cs ps)"

text \<open>\<open>s.includes(sub)\<close>: \<open>sub\<close> occurs in \<open>s\<close> as a contiguous run.\<close>

fun includes_str :: "string \<Rightarrow> string \<Rightarrow> bool" where
  "includes_str [] sub = (sub = [])"
| "includes_str (c # cs) sub = (startsWith (c # cs) sub \<or> includes_str cs sub)"

function natToString :: "nat \<Rightarrow> string" where
  "natToString n =
     (if n < 10 then [char_of (48 + n)]
      else natToString (n div 10) @ [char_of (48 + n mod 10)])"
  by pat_completeness auto
termination
  by (relation "measure id") auto

text \<open>\<open>String(v)\<close> for the modelled values; a plain object prints as \<open>[object Object]\<close>.\<close>

fun String_js :: "js_value \<Rightarrow> string" where
  "String_js JUndefined = ''undefined''"
| "String_js JNull = ''null''"
| "String_js (JBool b) = (if b then ''true'' else ''false'')"
| "String_js (JNum n) = (if n < 0 then CHR ''-'' # natToString (nat (- n)) else natToString (nat n))"
| "String_js (JStr s) = s"
| "String_js (JObj fs) = ''[object Object]''"

section \<open>Error classification\<close>

record parsed_error =
  detailedErrorMessage :: string
  statusCode :: "int option"
  geminiErrorStatus :: "string option"
  isQuotaExhaustedError :: bool
  isRateLimitErrorForRetry :: bool
  displayErrorMsg :: string

text \<open>
  \<open>parseGeminiError\<close> in two parts. \<open>extractError\<close> is the \<open>if / else if / else\<close> chain
  that fills \<open>detailedErrorMessage\<close>, \<open>statusCode\<close>, \<open>geminiErrorStatus\<close> and
  \<open>displayErrorMsg\<close>: the first branch is the nested shape \<open>{error: {message, code, status}}\<close>,
  the second the flat shape \<open>{message, status}\<close>, in which \<open>status\<close> is read only when it is
  a (non-zero) number and becomes the status code. \<open>parseGeminiError\<close> then computes the two
  flags; \<open>!statusCode\<close> holds when the code is absent or \<open>0\<close>.
\<close>

definition extractError :: "js_value \<Rightarrow> string \<times> int option \<times> string option \<times> string" where
  "extractError error =
     (if truthy error \<and> truthy (getProp error ''error'')
         \<and> (case getProp (getProp error ''error'') ''message'' of JStr m \<Rightarrow> True | _ \<Rightarrow> False)
      then
        (case getProp (getProp error ''error'') ''message'' of
           JStr m \<Rightarrow>
             (toLowerCase m,
              (case getProp (getProp error ''error'') ''code'' of JNum n \<Rightarrow> Some n | _ \<Rightarrow> None),
              (case getProp (getProp error ''error'') ''status'' of
                 JStr s \<Rightarrow> Some (toUpperCase s) | _ \<Rightarrow> None),
              m)
         | _ \<Rightarrow> ([], None, None, String_js error))
      else
        (case (if truthy error then getProp error ''message'' else JUndefined) of
           JStr m \<Rightarrow>
             (toLowerCase m,
              (case getProp error ''status'' of
                 JNum n \<Rightarrow> (if n \<noteq> 0 then Some n else None) | _ \<Rightarrow> None),
              None,
              m)
         | _ \<Rightarrow> (toLowerCase (String_js error), None, None, String_js error)))"

definition parseGeminiError :: "js_value \<Rightarrow> parsed_error" where
  "parseGeminiError error =
     (case extractError error of
        (detailed, code, gstatus, display) \<Rightarrow>
          (let quota =
             ((code = Some 429
                 \<and> (includes_str detailed ''quota'' \<or> gstatus = Some ''RESOURCE_EXHAUSTED''))
              \<or> ((code = None \<or> code = Some 0) \<and> includes_str detailed ''quota''
                   \<and> (includes_str detailed ''exceeded'' \<or> includes_str detailed ''exhausted''))
              \<or> gstatus = Some ''RESOURCE_EXHAUSTED'')
           in \<lparr> detailedErrorMessage = detailed,
                statusCode = code,
                geminiErrorStatus = gstatus,
                isQuotaExhaustedError = quota,
                isRateLimitErrorForRetry = (code = Some 429 \<and> \<not> quota),
                displayErrorMsg = display \<rparr>))"

section \<open>The world: module state, timers and observable effects\<close>

text \<open>
  Notifications carry Korean text built from templates. Each template is a constructor of
  \<open>toast_message\<close> whose arguments are the values interpolated into it (a delay is kept in
  milliseconds, where the text shows \<open>currentDelay / 1000\<close>); the feature descriptions
  (\<open>featureDescription\<close>, themselves templates over the word) are the two constructors of
  \<open>feature\<close>. An absent \<open>featureName\<close> is \<open>None\<close>. Console output is not modelled.
\<close>

datatype toast_type = Success | Error | Warning | Info

datatype feature = WordLookup string | ImageGeneration string

datatype toast_message =
    MsgQuotaExceeded "feature option" nat
  | MsgCooldownOver "feature option"
  | MsgApiKeyRequired
  | MsgQuotaSkipWord string
  | MsgIncompleteRetry feature int int
  | MsgIncompleteFinal feature
  | MsgRateLimitRetry feature int
  | MsgErrorRetry feature int string
  | MsgRateLimitFinal feature
  | MsgFinalFailure feature string
  | MsgFinalFailureNoDetail feature
  | MsgImageApiKeyRequired
  | MsgQuotaSkipImage string
  | MsgImageDone feature
  | MsgImageMissingRetry string
  | MsgImageMissingFinal string
  | MsgImageRateLimitRetry feature int
  | MsgImageErrorRetry feature int string
  | MsgImageFinalFailure feature string
  | MsgImageFinalFailureNoDetail feature

text \<open>
  Everything a call does to its surroundings is appended to one trace, in program order:
  calls of \<open>addToast\<close> and \<open>setGlobalLoading\<close> (the two callbacks passed in by the caller),
  requests sent to the service (with the attempt index), and the delays awaited between
  attempts.
\<close>

datatype event =
    AddToast toast_message toast_type
  | SetGlobalLoading bool
  | Request int
  | Sleep int

text \<open>
  The module-level variables \<open>ai\<close> (only whether it is non-null),
  \<open>isCurrentlyGeminiQuotaExhausted\<close> and \<open>quotaCooldownTimeoutId\<close>, the caller's loading
  flag, and the platform's timers: a clock in milliseconds, the next timer handle, and the
  pending callbacks registered by \<open>window.setTimeout\<close>, each with its handle, the time it is
  due and the \<open>featureName\<close> its closure captured. The only callback registered this way is
  the one in \<open>setGeminiQuotaExhaustedCooldown\<close>.
\<close>

record world =
  ai :: bool
  isCurrentlyGeminiQuotaExhausted :: bool
  quotaCooldownTimeoutId :: "nat option"
  timers :: "(nat \<times> nat \<times> feature option) list"
  nextTimerId :: nat
  now :: nat
  globalLoading :: bool
  trace :: "event list"

definition initial_world :: "bool \<Rightarrow> world" where
  "initial_world has_key =
     \<lparr> ai = has_key, isCurrentlyGeminiQuotaExhausted = False, quotaCooldownTimeoutId = None,
       timers = [], nextTimerId = 1, now = 0, globalLoading = False, trace = [] \<rparr>"

definition addToast :: "toast_message \<Rightarrow> toast_type \<Rightarrow> world \<Rightarrow> world" where
  "addToast message type w = w\<lparr>trace := trace w @ [AddToast message type]\<rparr>"

definition setGlobalLoading :: "bool \<Rightarrow> world \<Rightarrow> world" where
  "setGlobalLoading loading w =
     w\<lparr>globalLoading := loading, trace := trace w @ [SetGlobalLoading loading]\<rparr>"

definition request :: "int \<Rightarrow> world \<Rightarrow> world" where
  "request i w = w\<lparr>trace := trace w @ [Request i]\<rparr>"

subsection \<open>Timers\<close>

definition setTimeout :: "feature option \<Rightarrow> nat \<Rightarrow> world \<Rightarrow> nat \<times> world" where
  "setTimeout featureName delay w =
     (nextTimerId w,
      w\<lparr>timers := timers w @ [(nextTimerId w, now w + delay, featureName)],
        nextTimerId := nextTimerId w + 1\<rparr>)"

definition clearTimeout :: "nat \<Rightarrow> world \<Rightarrow> world" where
  "clearTimeout handle w = w\<lparr>timers := filter (\<lambda>(h, due, f). h \<noteq> handle) (timers w)\<rparr>"

text \<open>The callback registered by \<open>setGeminiQuotaExhaustedCooldown\<close>.\<close>

definition cooldownElapsed :: "feature option \<Rightarrow> world \<Rightarrow> world" where
  "cooldownElapsed featureName w =
     addToast (MsgCooldownOver featureName) Info
       (w\<lparr>isCurrentlyGeminiQuotaExhausted := False, quotaCooldownTimeoutId := None\<rparr>)"

text \<open>
  Letting \<open>d\<close> milliseconds pass: every pending callback that is due by then runs once, in
  the order of the due times, and is forgotten.
\<close>

definition advance_time :: "nat \<Rightarrow> world \<Rightarrow> world" where
  "advance_time d w =
     (let t = now w + d;
          due = sort_key (\<lambda>(h, at, f). at) (filter (\<lambda>(h, at, f). at \<le> t) (timers w));
          w0 = w\<lparr>now := t, timers := filter (\<lambda>(h, at, f). \<not> at \<le> t) (timers w)\<rparr>
      in fold (\<lambda>(h, at, f). cooldownElapsed f) due w0)"

text \<open>
  \<open>await new Promise(resolve => setTimeout(resolve, currentDelay))\<close>: the delay is recorded
  as requested, and the call resumes once it has passed (a negative delay passes at once).
\<close>

definition sleep :: "int \<Rightarrow> world \<Rightarrow> world" where
  "sleep currentDelay w = advance_time (nat currentDelay) (w\<lparr>trace := trace w @ [Sleep currentDelay]\<rparr>)"

section \<open>The quota cooldown\<close>

definition GEMINI_QUOTA_COOLDOWN_MS :: nat where
  "GEMINI_QUOTA_COOLDOWN_MS = 15 * 60 * 1000"

definition setGeminiQuotaExhaustedCooldown :: "feature option \<Rightarrow> world \<Rightarrow> world" where
  "setGeminiQuotaExhaustedCooldown featureName w =
     (if \<not> isCurrentlyGeminiQuotaExhausted w then
        (let cooldownMinutes = GEMINI_QUOTA_COOLDOWN_MS div 60000;
             w1 = w\<lparr>isCurrentlyGeminiQuotaExhausted := True\<rparr>;
             w2 = addToast (MsgQuotaExceeded featureName cooldownMinutes) Error w1;
             w3 = (case quotaCooldownTimeoutId w2 of
                     Some h \<Rightarrow> (if h \<noteq> 0 then clearTimeout h w2 else w2)
                   | None \<Rightarrow> w2);
             (h, w4) = setTimeout featureName GEMINI_QUOTA_COOLDOWN_MS w3
         in w4\<lparr>quotaCooldownTimeoutId := Some h\<rparr>)
      else w)"

section \<open>The two retrying calls\<close>

text \<open>
  What one attempt gets from the service: the awaited request (for the word lookup together
  with the unwrapping and \<open>JSON.parse\<close> of the reply text) either throws or yields a
  response. A call is given the outcome of each attempt as a function of the attempt index.
  The parameters \<open>retries\<close> and \<open>initialDelay\<close> are integers, as is the loop counter; a call
  runs from its first statement to its \<open>return\<close> without other calls in between.
\<close>

datatype 'a attempt = Throws js_value | Responds 'a

text \<open>
  The reply of the image service: \<open>generatedImages\<close> may be absent, and each image may lack
  \<open>image.imageBytes\<close>.
\<close>

type_synonym images_response = "string option list option"

text \<open>How one pass through the loop body ends: with a \<open>return\<close>, or by going on to the next \<open>i\<close>.\<close>

datatype 'r step = Return 'r world | Continue world

text \<open>
  The skeleton \<open>for (let i = 0; i <= retries; i++) { ... }\<close> shared by the two functions;
  \<open>currentDelay\<close> is doubled on every path that goes on. The result is \<open>None\<close> when the loop
  ends without a \<open>return\<close>.
\<close>

function retryLoop ::
  "(int \<Rightarrow> int \<Rightarrow> world \<Rightarrow> 'r step) \<Rightarrow> int \<Rightarrow> int \<Rightarrow> int \<Rightarrow> world \<Rightarrow> 'r option \<times> world" where
  "retryLoop body retries i currentDelay w =
     (if i \<le> retries then
        (case body i currentDelay w of
           Return r w' \<Rightarrow> (Some r, w')
         | Continue w' \<Rightarrow> retryLoop body retries (i + 1) (currentDelay * 2) w')
      else (None, w))"
  by pat_completeness auto
termination
  by (relation "measure (\<lambda>(body, retries, i, currentDelay, w). nat (retries + 1 - i))") auto

subsection \<open>Word details\<close>

text \<open>The \<open>catch\<close> block of \<open>generateWordDetailsWithGemini\<close>.\<close>

definition wordDetailsCatch :: "string \<Rightarrow> int \<Rightarrow> int \<Rightarrow> int \<Rightarrow> js_value \<Rightarrow> world \<Rightarrow> js_value option step" where
  "wordDetailsCatch term retries i currentDelay error w =
     (let featureDescription = WordLookup term;
          e = parseGeminiError error
      in if isQuotaExhaustedError e then
           Return None (setGeminiQuotaExhaustedCooldown (Some featureDescription) w)
         else if i < retries then
           Continue (sleep currentDelay
             (addToast (if isRateLimitErrorForRetry e
                        then MsgRateLimitRetry featureDescription currentDelay
                        else MsgErrorRetry featureDescription currentDelay (displayErrorMsg e))
                Warning w))
         else
           Return None
             (addToast (if isRateLimitErrorForRetry e
                        then MsgRateLimitFinal featureDescription
                        else MsgFinalFailure featureDescription (displayErrorMsg e))
                Error w))"

text \<open>
  Reading \<open>data.partOfSpeech\<close> when \<open>JSON.parse\<close> gave \<open>null\<close> throws a \<open>TypeError\<close> inside
  the \<open>try\<close>; its message depends on the engine and does not mention a quota.
\<close>

definition nullTypeError :: js_value where
  "nullTypeError = JObj [(''message'', JStr ''Cannot read properties of null'')]"

text \<open>The check \<open>!data.partOfSpeech || !data.meaning || !data.exampleSentence\<close>.\<close>

definition missingEssentialFields :: "js_value \<Rightarrow> bool" where
  "missingEssentialFields data =
     (\<not> truthy (getProp data ''partOfSpeech'') \<or> \<not> truthy (getProp data ''meaning'')
      \<or> \<not> truthy (getProp data ''exampleSentence''))"

text \<open>The body of the loop: one request and the handling of its outcome.\<close>

definition wordDetailsAttempt ::
  "string \<Rightarrow> (int \<Rightarrow> js_value attempt) \<Rightarrow> int \<Rightarrow> int \<Rightarrow> int \<Rightarrow> world \<Rightarrow> js_value option step" where
  "wordDetailsAttempt term service retries i currentDelay w =
     (let featureDescription = WordLookup term;
          w1 = request i w
      in case service i of
           Throws error \<Rightarrow> wordDetailsCatch term retries i currentDelay error w1
         | Responds data \<Rightarrow>
             if data = JNull \<or> data = JUndefined then
               wordDetailsCatch term retries i currentDelay nullTypeError w1
             else if missingEssentialFields data then
               (if i < retries then
                  Continue (sleep currentDelay
                    (addToast (MsgIncompleteRetry featureDescription (i + 1) (retries + 1)) Warning w1))
                else
                  Return (Some (JObj [(''term'', JStr term)]))
                    (addToast (MsgIncompleteFinal featureDescription) Error w1))
             else Return (Some data) w1)"

text \<open>
  \<open>generateWordDetailsWithGemini(term, addToast, setGlobalLoading, retries, initialDelay)\<close>.
  The result \<open>None\<close> is \<open>null\<close>. The \<open>finally\<close> clause runs on leaving the loop either way,
  before the statements that follow the loop.
\<close>

definition generateWordDetailsWithGemini ::
  "string \<Rightarrow> (int \<Rightarrow> js_value attempt) \<Rightarrow> int \<Rightarrow> int \<Rightarrow> world \<Rightarrow> js_value option \<times> world" where
  "generateWordDetailsWithGemini term service retries initialDelay w =
     (if \<not> ai w then (None, addToast MsgApiKeyRequired Warning w)
      else if isCurrentlyGeminiQuotaExhausted w then
        (None, addToast (MsgQuotaSkipWord term) Warning w)
      else
        (case retryLoop (wordDetailsAttempt term service retries) retries 0 initialDelay
                (setGlobalLoading True w) of
           (Some result, w') \<Rightarrow> (result, setGlobalLoading False w')
         | (None, w') \<Rightarrow>
             (None, addToast (MsgFinalFailureNoDetail (WordLookup term)) Error
                      (setGlobalLoading False w'))))"

subsection \<open>Image generation\<close>

text \<open>The \<open>catch\<close> block of \<open>generateImageForWordWithGemini\<close>.\<close>

definition imageCatch :: "string \<Rightarrow> int \<Rightarrow> int \<Rightarrow> int \<Rightarrow> js_value \<Rightarrow> world \<Rightarrow> string option step" where
  "imageCatch wordTerm retries i currentDelay error w =
     (let featureDescription = ImageGeneration wordTerm;
          e = parseGeminiError error
      in if isQuotaExhaustedError e then
           Return None (setGeminiQuotaExhaustedCooldown (Some featureDescription) w)
         else if i < retries then
           Continue (sleep currentDelay
             (addToast (if isRateLimitErrorForRetry e
                        then MsgImageRateLimitRetry featureDescription currentDelay
                        else MsgImageErrorRetry featureDescription currentDelay (displayErrorMsg e))
                Warning w))
         else
           Return None
             (addToast (if isRateLimitErrorForRetry e
                        then MsgRateLimitFinal featureDescription
                        else MsgImageFinalFailure featureDescription (displayErrorMsg e))
                Error w))"

text \<open>
  The test \<open>response.generatedImages && response.generatedImages.length > 0 &&
  response.generatedImages[0].image?.imageBytes\<close>: the bytes of the first image, when there
  is one and they are not empty.
\<close>

definition firstImageBytes :: "images_response \<Rightarrow> string option" where
  "firstImageBytes response =
     (case response of
        Some (Some imageBytes # rest) \<Rightarrow> (if imageBytes \<noteq> [] then Some imageBytes else None)
      | _ \<Rightarrow> None)"

definition imageAttempt ::
  "string \<Rightarrow> (int \<Rightarrow> images_response attempt) \<Rightarrow> int \<Rightarrow> int \<Rightarrow> int \<Rightarrow> world \<Rightarrow> string option step" where
  "imageAttempt wordTerm service retries i currentDelay w =
     (let featureDescription = ImageGeneration wordTerm;
          w1 = request i w
      in case service i of
           Throws error \<Rightarrow> imageCatch wordTerm retries i currentDelay error w1
         | Responds response \<Rightarrow>
             (case firstImageBytes response of
                Some imageBytes \<Rightarrow>
                  Return (Some imageBytes) (addToast (MsgImageDone featureDescription) Success w1)
              | None \<Rightarrow>
                  if i < retries then
                    Continue (sleep currentDelay (addToast (MsgImageMissingRetry wordTerm) Warning w1))
                  else Return None (addToast (MsgImageMissingFinal wordTerm) Error w1)))"

definition generateImageForWordWithGemini ::
  "string \<Rightarrow> (int \<Rightarrow> images_response attempt) \<Rightarrow> int \<Rightarrow> int \<Rightarrow> world \<Rightarrow> string option \<times> world" where
  "generateImageForWordWithGemini wordTerm service retries initialDelay w =
     (if \<not> ai w then (None, addToast MsgImageApiKeyRequired Warning w)
      else if isCurrentlyGeminiQuotaExhausted w then
        (None, addToast (MsgQuotaSkipImage wordTerm) Warning w)
      else
        (case retryLoop (imageAttempt wordTerm service retries) retries 0 initialDelay
                (setGlobalLoading True w) of
           (Some result, w') \<Rightarrow> (result, setGlobalLoading False w')
         | (None, w') \<Rightarrow>
             (None, addToast (MsgImageFinalFailureNoDetail (ImageGeneration wordTerm)) Error
                      (setGlobalLoading False w'))))"

section \<open>Reading the trace\<close>

text \<open>The number of requests sent to the service.\<close>

fun requests :: "event list \<Rightarrow> nat" where
  "requests [] = 0"
| "requests (Request i # es) = Suc (requests es)"
| "requests (e # es) = requests es"

text \<open>
  The levels of the notifications, the awaited delays, and the values given to the loading
  flag, each in order.
\<close>

fun toastTypes :: "event list \<Rightarrow> toast_type list" where
  "toastTypes [] = []"
| "toastTypes (AddToast m t # es) = t # toastTypes es"
| "toastTypes (e # es) = toastTypes es"

fun sleeps :: "event list \<Rightarrow> int list" where
  "sleeps [] = []"
| "sleeps (Sleep d # es) = d # sleeps es"
| "sleeps (e # es) = sleeps es"

fun loadings :: "event list \<Rightarrow> bool list" where
  "loadings [] = []"
| "loadings (SetGlobalLoading b # es) = b # loadings es"
| "loadings (e # es) = loadings es"

text \<open>
  The state of the cooldown in every world the program can reach: while the flag is set,
  exactly one callback is pending, under the handle held in \<open>quotaCooldownTimeoutId\<close>, due
  within the cooldown time; while it is clear, nothing is pending and no handle is held.
\<close>

definition quota_inv :: "world \<Rightarrow> bool" where
  "quota_inv w =
     (if isCurrentlyGeminiQuotaExhausted w then
        (case timers w of
           [(h, due, f)] \<Rightarrow>
             quotaCooldownTimeoutId w = Some h \<and> 0 < h \<and> h < nextTimerId w
             \<and> now w < due \<and> due \<le> now w + GEMINI_QUOTA_COOLDOWN_MS
         | _ \<Rightarrow> False)
      else timers w = [] \<and> quotaCooldownTimeoutId w = None \<and> 0 < nextTimerId w)"

text \<open>Where a pass through the loop body leaves the world, and whether it goes on.\<close>

fun step_world :: "'r step \<Rightarrow> world" where
  "step_world (Return r w) = w"
| "step_world (Continue w) = w"

fun is_continue :: "'r step \<Rightarrow> bool" where
  "is_continue (Return r w) = False"
| "is_continue (Continue w) = True"

text \<open>
  \<open>quiet w w'\<close>: from \<open>w\<close> to \<open>w'\<close> the trace has only grown, and the loading flag was not
  touched.
\<close>

definition quiet :: "world \<Rightarrow> world \<Rightarrow> bool" where
  "quiet w w' =
     (globalLoading w' = globalLoading w \<and> ai w' = ai w
      \<and> take (length (trace w)) (trace w') = trace w
      \<and> loadings (drop (length (trace w)) (trace w')) = [])"

text \<open>The notifications emitted by a list of elapsed cooldown callbacks.\<close>

definition elapsedToasts :: "(nat \<times> nat \<times> feature option) list \<Rightarrow> event list" where
  "elapsedToasts cbs = map (\<lambda>(h, at, f). AddToast (MsgCooldownOver f) Info) cbs"

section \<open>Facts about the trace and the timers\<close>

lemma requests_append [simp]: "requests (xs @ ys) = requests xs + requests ys"
  by (induction xs rule: requests.induct) simp_all

lemma toastTypes_append [simp]: "toastTypes (xs @ ys) = toastTypes xs @ toastTypes ys"
  by (induction xs rule: toastTypes.induct) simp_all

lemma sleeps_append [simp]: "sleeps (xs @ ys) = sleeps xs @ sleeps ys"
  by (induction xs rule: sleeps.induct) simp_all

lemma loadings_append [simp]: "loadings (xs @ ys) = loadings xs @ loadings ys"
  by (induction xs rule: loadings.induct) simp_all

lemma elapsedToasts_proj [simp]:
  "requests (elapsedToasts cbs) = 0" "sleeps (elapsedToasts cbs) = []"
  "loadings (elapsedToasts cbs) = []" "toastTypes (elapsedToasts cbs) = replicate (length cbs) Info"
  by (induction cbs) (auto simp: elapsedToasts_def)

lemma fold_cooldownElapsed:
  "fold (\<lambda>(h, at, f). cooldownElapsed f) cbs w =
     (if cbs = [] then w
      else w\<lparr>isCurrentlyGeminiQuotaExhausted := False, quotaCooldownTimeoutId := None,
             trace := trace w @ elapsedToasts cbs\<rparr>)"
proof (induction cbs arbitrary: w)
  case Nil
  then show ?case by simp
next
  case (Cons c cbs)
  then show ?case
    by (cases c) (simp add: cooldownElapsed_def addToast_def elapsedToasts_def)
qed

lemma advance_time_no_timers: "timers w = [] \<Longrightarrow> advance_time d w = w\<lparr>now := now w + d\<rparr>"
  by (simp add: advance_time_def)

lemma advance_time_trace:
  "\<exists>cbs. trace (advance_time d w) = trace w @ elapsedToasts cbs"
proof -
  let ?due = "sort_key (\<lambda>(h, at, f). at) (filter (\<lambda>(h, at, f). at \<le> now w + d) (timers w))"
  have "trace (advance_time d w) = trace w @ elapsedToasts ?due"
    by (simp add: advance_time_def Let_def fold_cooldownElapsed elapsedToasts_def)
  then show ?thesis ..
qed

lemma advance_time_fields [simp]:
  "ai (advance_time d w) = ai w" "globalLoading (advance_time d w) = globalLoading w"
  "nextTimerId (advance_time d w) = nextTimerId w" "now (advance_time d w) = now w + d"
  by (simp_all add: advance_time_def Let_def fold_cooldownElapsed)

lemma advance_time_proj [simp]:
  "requests (trace (advance_time d w)) = requests (trace w)"
  "sleeps (trace (advance_time d w)) = sleeps (trace w)"
  "loadings (trace (advance_time d w)) = loadings (trace w)"
  using advance_time_trace [of d w] by auto

lemma quiet_iff:
  "quiet w w' \<longleftrightarrow> globalLoading w' = globalLoading w \<and> ai w' = ai w
      \<and> (\<exists>ev. trace w' = trace w @ ev \<and> loadings ev = [])"
proof
  assume q: "quiet w w'"
  then have "trace w' = trace w @ drop (length (trace w)) (trace w')"
    by (metis append_take_drop_id quiet_def)
  with q show "globalLoading w' = globalLoading w \<and> ai w' = ai w
      \<and> (\<exists>ev. trace w' = trace w @ ev \<and> loadings ev = [])"
    unfolding quiet_def by blast
next
  assume "globalLoading w' = globalLoading w \<and> ai w' = ai w
      \<and> (\<exists>ev. trace w' = trace w @ ev \<and> loadings ev = [])"
  then show "quiet w w'" by (auto simp: quiet_def)
qed


lemma quiet_trans: "quiet a b \<Longrightarrow> quiet b c \<Longrightarrow> quiet a c"
  unfolding quiet_iff by (elim conjE exE) (simp)

lemma quiet_addToast [simp]: "quiet w (addToast m t w)"
  by (simp add: quiet_def addToast_def)

lemma quiet_request [simp]: "quiet w (request i w)"
  by (simp add: quiet_def request_def)

lemma quiet_advance_time [simp]: "quiet w (advance_time d w)"
  unfolding quiet_iff using advance_time_trace [of d w] by auto

lemma quiet_sleep [simp]: "quiet w (sleep d w)"
proof -
  have "quiet w (w\<lparr>trace := trace w @ [Sleep d]\<rparr>)" by (simp add: quiet_def)
  then show ?thesis unfolding sleep_def by (rule quiet_trans) simp
qed

lemma quiet_setCooldown [simp]: "quiet w (setGeminiQuotaExhaustedCooldown f w)"
  by (simp add: quiet_def setGeminiQuotaExhaustedCooldown_def Let_def addToast_def setTimeout_def
      clearTimeout_def split: option.splits)


lemma retryLoop_enter:
  "i \<le> retries \<Longrightarrow> retryLoop body retries i d w =
     (case body i d w of Return r w' \<Rightarrow> (Some r, w')
      | Continue w' \<Rightarrow> retryLoop body retries (i + 1) (d * 2) w')"
  by (subst retryLoop.simps) simp

lemma retryLoop_exit: "\<not> i \<le> retries \<Longrightarrow> retryLoop body retries i d w = (None, w)"
  by (subst retryLoop.simps) simp

declare retryLoop.simps [simp del]

lemma retryLoop_rel:
  assumes refl: "\<And>w. R w w" and trans: "\<And>a b c. R a b \<Longrightarrow> R b c \<Longrightarrow> R a c"
    and body: "\<And>i d w. R w (step_world (body i d w))"
  shows "R w (snd (retryLoop body retries i d w))"
  using body
proof (induction body retries i d w rule: retryLoop.induct)
  case (1 body retries i d w)
  show ?case
  proof (cases "i \<le> retries")
    case False
    then show ?thesis by (simp add: retryLoop_exit refl)
  next
    case True
    show ?thesis
    proof (cases "body i d w")
      case (Return r w')
      with True "1.prems" [of w i d] show ?thesis by (simp add: retryLoop_enter)
    next
      case (Continue w')
      have a: "R w w'" using "1.prems" [of w i d] Continue by simp
      have b: "R w' (snd (retryLoop body retries (i + 1) (d * 2) w'))"
        by (rule "1.IH" [OF True Continue]) (rule "1.prems")
      have c: "retryLoop body retries i d w = retryLoop body retries (i + 1) (d * 2) w'"
        using True Continue by (simp add: retryLoop_enter)
      show ?thesis unfolding c by (rule trans [OF a b])
    qed
  qed
qed

lemma trace_simps [simp]:
  "trace (addToast m t w) = trace w @ [AddToast m t]"
  "trace (request i w) = trace w @ [Request i]"
  "trace (setGlobalLoading b w) = trace w @ [SetGlobalLoading b]"
  by (simp_all add: addToast_def request_def setGlobalLoading_def)

lemma sleep_proj [simp]:
  "requests (trace (sleep d w)) = requests (trace w)"
  "sleeps (trace (sleep d w)) = sleeps (trace w) @ [d]"
  "loadings (trace (sleep d w)) = loadings (trace w)"
  by (simp_all add: sleep_def)

lemma setCooldown_proj [simp]:
  "requests (trace (setGeminiQuotaExhaustedCooldown f w)) = requests (trace w)"
  "sleeps (trace (setGeminiQuotaExhaustedCooldown f w)) = sleeps (trace w)"
  "loadings (trace (setGeminiQuotaExhaustedCooldown f w)) = loadings (trace w)"
  by (simp_all add: setGeminiQuotaExhaustedCooldown_def Let_def addToast_def setTimeout_def
      clearTimeout_def split: option.splits)

section \<open>Facts about the loop and the two calls\<close>

lemma wordDetailsCatch_requests [simp]:
  "requests (trace (step_world (wordDetailsCatch term retries i d e w))) = requests (trace w)"
  by (simp add: wordDetailsCatch_def Let_def)

lemma wordDetailsCatch_sleeps:
  "sleeps (trace (step_world (wordDetailsCatch term retries i d e w))) =
     sleeps (trace w) @ (if is_continue (wordDetailsCatch term retries i d e w) then [d] else [])"
  by (simp add: wordDetailsCatch_def Let_def)

lemma wordDetailsCatch_continue:
  "is_continue (wordDetailsCatch term retries i d e w) \<Longrightarrow> i < retries"
  by (simp add: wordDetailsCatch_def Let_def split: if_splits)

lemma wordDetailsCatch_quiet [simp]:
  "quiet w (step_world (wordDetailsCatch term retries i d e w))"
  by (auto simp: wordDetailsCatch_def Let_def intro: quiet_trans [OF quiet_addToast quiet_sleep])


lemma wordDetailsAttempt_requests:
  "requests (trace (step_world (wordDetailsAttempt term service retries i d w))) = Suc (requests (trace w))"
  by (simp add: wordDetailsAttempt_def Let_def split: attempt.splits)

lemma wordDetailsAttempt_sleeps:
  "sleeps (trace (step_world (wordDetailsAttempt term service retries i d w))) =
     sleeps (trace w) @ (if is_continue (wordDetailsAttempt term service retries i d w) then [d] else [])"
  by (simp add: wordDetailsAttempt_def Let_def wordDetailsCatch_sleeps split: attempt.splits)

lemma wordDetailsAttempt_continue:
  "is_continue (wordDetailsAttempt term service retries i d w) \<longrightarrow> i < retries"
  by (auto simp: wordDetailsAttempt_def Let_def split: attempt.splits if_splits
      dest: wordDetailsCatch_continue)


lemma retryLoop_sleeps:
  assumes B1: "\<And>i d w. requests (trace (step_world (body i d w))) = Suc (requests (trace w))"
    and B2: "\<And>i d w. sleeps (trace (step_world (body i d w))) =
               sleeps (trace w) @ (if is_continue (body i d w) then [d] else [])"
    and B3: "\<And>i d w. is_continue (body i d w) \<longrightarrow> i < retries"
  shows "(if i \<le> retries
          then fst (retryLoop body retries i d w) \<noteq> None
               \<and> requests (trace w) < requests (trace (snd (retryLoop body retries i d w)))
          else retryLoop body retries i d w = (None, w))
       \<and> sleeps (trace (snd (retryLoop body retries i d w))) =
           sleeps (trace w) @ map (\<lambda>k. d * 2 ^ k)
             [0..<requests (trace (snd (retryLoop body retries i d w))) - requests (trace w) - 1]"
  using assms
proof (induction body retries i d w rule: retryLoop.induct)
  case (1 body retries i d w)
  show ?case
  proof (cases "i \<le> retries")
    case False
    then show ?thesis by (simp add: retryLoop_exit)
  next
    case True
    show ?thesis
    proof (cases "body i d w")
      case (Return r w')
      with True "1.prems"(1) [of i d w] "1.prems"(2) [of i d w] show ?thesis
        by (simp add: retryLoop_enter)
    next
      case (Continue w')
      let ?w'' = "snd (retryLoop body retries (i + 1) (d * 2) w')"
      have lt: "i + 1 \<le> retries" using "1.prems"(3) [of i d w] Continue by simp
      have r1: "requests (trace w') = Suc (requests (trace w))"
        using "1.prems"(1) [of i d w] Continue by simp
      have s1: "sleeps (trace w') = sleeps (trace w) @ [d]"
        using "1.prems"(2) [of i d w] Continue by simp
      have ih: "fst (retryLoop body retries (i + 1) (d * 2) w') \<noteq> None
          \<and> requests (trace w') < requests (trace ?w'')
          \<and> sleeps (trace ?w'') = sleeps (trace w') @ map (\<lambda>k. d * 2 * 2 ^ k)
               [0..<requests (trace ?w'') - requests (trace w') - 1]"
        using "1.IH" [OF True Continue "1.prems"] lt by simp
      define n where "n = requests (trace ?w'') - requests (trace w') - 1"
      have n: "requests (trace ?w'') - requests (trace w) - 1 = Suc n"
        unfolding n_def using ih r1 by arith
      have "map (\<lambda>k. d * 2 ^ k) [0..<Suc n] = d # map (\<lambda>k. d * 2 * 2 ^ k) [0..<n]"
        by (simp add: map_upt_Suc mult.assoc del: upt_Suc)
      then have "sleeps (trace ?w'') = sleeps (trace w) @ map (\<lambda>k. d * 2 ^ k) [0..<Suc n]"
        using ih s1 by (simp add: n_def)
      moreover have "retryLoop body retries i d w = retryLoop body retries (i + 1) (d * 2) w'"
        using True Continue by (simp add: retryLoop_enter)
      ultimately show ?thesis using True ih r1 n by simp
    qed
  qed
qed

lemma imageCatch_requests [simp]:
  "requests (trace (step_world (imageCatch wordTerm retries i d e w))) = requests (trace w)"
  by (simp add: imageCatch_def Let_def)

lemma imageCatch_sleeps:
  "sleeps (trace (step_world (imageCatch wordTerm retries i d e w))) =
     sleeps (trace w) @ (if is_continue (imageCatch wordTerm retries i d e w) then [d] else [])"
  by (simp add: imageCatch_def Let_def)

lemma imageCatch_continue:
  "is_continue (imageCatch wordTerm retries i d e w) \<Longrightarrow> i < retries"
  by (simp add: imageCatch_def Let_def split: if_splits)

lemma imageCatch_quiet [simp]:
  "quiet w (step_world (imageCatch wordTerm retries i d e w))"
  by (auto simp: imageCatch_def Let_def intro: quiet_trans [OF quiet_addToast quiet_sleep])

lemma imageAttempt_requests:
  "requests (trace (step_world (imageAttempt wordTerm service retries i d w))) = Suc (requests (trace w))"
  by (simp add: imageAttempt_def Let_def split: attempt.splits option.splits)

lemma imageAttempt_sleeps:
  "sleeps (trace (step_world (imageAttempt wordTerm service retries i d w))) =
     sleeps (trace w) @ (if is_continue (imageAttempt wordTerm service retries i d w) then [d] else [])"
  by (simp add: imageAttempt_def Let_def imageCatch_sleeps split: attempt.splits option.splits)

lemma imageAttempt_continue:
  "is_continue (imageAttempt wordTerm service retries i d w) \<longrightarrow> i < retries"
  by (auto simp: imageAttempt_def Let_def split: attempt.splits option.splits if_splits
      dest: imageCatch_continue)



subsection \<open>Worlds with no pending timer\<close>

lemma sleep_no_timers:
  "timers w = [] \<Longrightarrow> sleep d w = w\<lparr>now := now w + nat d, trace := trace w @ [Sleep d]\<rparr>"
  by (simp add: sleep_def advance_time_no_timers)

lemma isRateLimit_iff:
  "isRateLimitErrorForRetry (parseGeminiError e) =
     (statusCode (parseGeminiError e) = Some 429 \<and> \<not> isQuotaExhaustedError (parseGeminiError e))"
  by (simp add: parseGeminiError_def Let_def split: prod.splits)


lemma setCooldown_idle:
  assumes "timers w = []" "quotaCooldownTimeoutId w = None" "\<not> isCurrentlyGeminiQuotaExhausted w"
  shows "setGeminiQuotaExhaustedCooldown f w =
     w\<lparr>isCurrentlyGeminiQuotaExhausted := True,
       quotaCooldownTimeoutId := Some (nextTimerId w),
       timers := [(nextTimerId w, now w + GEMINI_QUOTA_COOLDOWN_MS, f)],
       nextTimerId := nextTimerId w + 1,
       trace := trace w @ [AddToast (MsgQuotaExceeded f 15) Error]\<rparr>"
  using assms
  by (simp add: setGeminiQuotaExhaustedCooldown_def Let_def addToast_def setTimeout_def
      GEMINI_QUOTA_COOLDOWN_MS_def)


lemma request_fields [simp]:
  "isCurrentlyGeminiQuotaExhausted (request i w) = isCurrentlyGeminiQuotaExhausted w"
  "nextTimerId (request i w) = nextTimerId w" "now (request i w) = now w"
  "timers (request i w) = timers w" "quotaCooldownTimeoutId (request i w) = quotaCooldownTimeoutId w"
  "globalLoading (request i w) = globalLoading w" "ai (request i w) = ai w"
  by (simp_all add: request_def)

lemma setGlobalLoading_fields [simp]:
  "isCurrentlyGeminiQuotaExhausted (setGlobalLoading b w) = isCurrentlyGeminiQuotaExhausted w"
  "nextTimerId (setGlobalLoading b w) = nextTimerId w" "now (setGlobalLoading b w) = now w"
  "timers (setGlobalLoading b w) = timers w"
  "quotaCooldownTimeoutId (setGlobalLoading b w) = quotaCooldownTimeoutId w"
  "globalLoading (setGlobalLoading b w) = b" "ai (setGlobalLoading b w) = ai w"
  by (simp_all add: setGlobalLoading_def)

lemma addToast_fields [simp]:
  "isCurrentlyGeminiQuotaExhausted (addToast m t w) = isCurrentlyGeminiQuotaExhausted w"
  "nextTimerId (addToast m t w) = nextTimerId w" "now (addToast m t w) = now w"
  "timers (addToast m t w) = timers w"
  "quotaCooldownTimeoutId (addToast m t w) = quotaCooldownTimeoutId w"
  "globalLoading (addToast m t w) = globalLoading w" "ai (addToast m t w) = ai w"
  by (simp_all add: addToast_def)

subsection \<open>Attempts that always fail\<close>

lemma wordDetailsAttempt_generic_error:
  assumes "service i = Throws e" and "\<not> isQuotaExhaustedError (parseGeminiError e)"
    and "statusCode (parseGeminiError e) \<noteq> Some 429" and "timers w = []"
  shows "wordDetailsAttempt term service retries i d w =
     (if i < retries then
        Continue (w\<lparr>now := now w + nat d,
                    trace := trace w @
                      [Request i,
                       AddToast (MsgErrorRetry (WordLookup term) d (displayErrorMsg (parseGeminiError e)))
                         Warning,
                       Sleep d]\<rparr>)
      else
        Return None (w\<lparr>trace := trace w @
                      [Request i,
                       AddToast (MsgFinalFailure (WordLookup term) (displayErrorMsg (parseGeminiError e)))
                         Error]\<rparr>))"
  using assms
  by (simp add: wordDetailsAttempt_def wordDetailsCatch_def Let_def isRateLimit_iff sleep_no_timers
      addToast_def request_def)



lemma imageAttempt_incomplete:
  "firstImageBytes (responses i) = None \<Longrightarrow>
   imageAttempt wordTerm (\<lambda>i. Responds (responses i)) retries i d w =
     (if i < retries then
        Continue (sleep d (addToast (MsgImageMissingRetry wordTerm) Warning (request i w)))
      else Return None (addToast (MsgImageMissingFinal wordTerm) Error (request i w)))"
  by (simp add: imageAttempt_def Let_def)

subsection \<open>The cooldown invariant holds in every reachable world\<close>

lemma GEMINI_QUOTA_COOLDOWN_MS_pos: "0 < GEMINI_QUOTA_COOLDOWN_MS"
  by (simp add: GEMINI_QUOTA_COOLDOWN_MS_def)

lemma quota_inv_initial: "quota_inv (initial_world has_key)"
  by (simp add: quota_inv_def initial_world_def)

lemma quota_inv_trace [simp]:
  "quota_inv (w\<lparr>trace := tr\<rparr>) = quota_inv w"
  "quota_inv (w\<lparr>globalLoading := b\<rparr>) = quota_inv w"
  by (auto simp: quota_inv_def split: list.splits)

lemma quota_inv_effects [simp]:
  "quota_inv (addToast m t w) = quota_inv w"
  "quota_inv (request i w) = quota_inv w"
  "quota_inv (setGlobalLoading b w) = quota_inv w"
  by (simp_all add: addToast_def request_def setGlobalLoading_def)

lemma quota_inv_setCooldown:
  assumes "quota_inv w"
  shows "quota_inv (setGeminiQuotaExhaustedCooldown f w)"
proof (cases "isCurrentlyGeminiQuotaExhausted w")
  case True
  with assms show ?thesis by (simp add: setGeminiQuotaExhaustedCooldown_def)
next
  case False
  with assms have idle: "timers w = []" "quotaCooldownTimeoutId w = None" "0 < nextTimerId w"
    by (simp_all add: quota_inv_def)
  show ?thesis
    unfolding setCooldown_idle [OF idle(1,2) False]
    using idle(3) by (simp add: quota_inv_def GEMINI_QUOTA_COOLDOWN_MS_pos)
qed

lemma quota_inv_advance_time:
  assumes "quota_inv w"
  shows "quota_inv (advance_time d w)"
proof (cases "isCurrentlyGeminiQuotaExhausted w")
  case False
  with assms have "timers w = []" by (simp add: quota_inv_def)
  with assms False show ?thesis by (simp add: advance_time_no_timers quota_inv_def)
next
  case True
  with assms obtain h due f where t: "timers w = [(h, due, f)]"
    and rest: "quotaCooldownTimeoutId w = Some h" "0 < h" "h < nextTimerId w"
      "now w < due" "due \<le> now w + GEMINI_QUOTA_COOLDOWN_MS"
    by (auto simp: quota_inv_def split: list.splits)
  show ?thesis
    using True rest
    by (simp add: advance_time_def Let_def t fold_cooldownElapsed quota_inv_def)
qed

lemma quota_inv_sleep: "quota_inv w \<Longrightarrow> quota_inv (sleep d w)"
  by (simp add: sleep_def quota_inv_advance_time)

lemma quota_inv_wordDetailsAttempt:
  "quota_inv w \<Longrightarrow> quota_inv (step_world (wordDetailsAttempt term service retries i d w))"
  by (simp add: wordDetailsAttempt_def wordDetailsCatch_def Let_def quota_inv_sleep
      quota_inv_setCooldown split: attempt.splits)

lemma quota_inv_imageAttempt:
  "quota_inv w \<Longrightarrow> quota_inv (step_world (imageAttempt wordTerm service retries i d w))"
  by (simp add: imageAttempt_def imageCatch_def Let_def quota_inv_sleep
      quota_inv_setCooldown split: attempt.splits option.splits)

lemma retryLoop_quota_inv:
  assumes "\<And>i d w. quota_inv w \<longrightarrow> quota_inv (step_world (body i d w))"
  shows "quota_inv w \<longrightarrow> quota_inv (snd (retryLoop body retries i d w))"
  by (rule retryLoop_rel [where R = "\<lambda>a b. quota_inv a \<longrightarrow> quota_inv b"]) (simp_all add: assms)

lemma quota_inv_generateWordDetailsWithGemini:
  assumes "quota_inv w"
  shows "quota_inv (snd (generateWordDetailsWithGemini term service retries initialDelay w))"
proof -
  have "quota_inv (snd (retryLoop (wordDetailsAttempt term service retries) retries 0 initialDelay
                          (setGlobalLoading True w)))"
    using retryLoop_quota_inv [of "wordDetailsAttempt term service retries"]
      quota_inv_wordDetailsAttempt assms by simp
  then show ?thesis
    using assms
    by (auto simp: generateWordDetailsWithGemini_def split: prod.splits option.splits)
qed

lemma quota_inv_generateImageForWordWithGemini:
  assumes "quota_inv w"
  shows "quota_inv (snd (generateImageForWordWithGemini wordTerm service retries initialDelay w))"
proof -
  have "quota_inv (snd (retryLoop (imageAttempt wordTerm service retries) retries 0 initialDelay
                          (setGlobalLoading True w)))"
    using retryLoop_quota_inv [of "imageAttempt wordTerm service retries"]
      quota_inv_imageAttempt assms by simp
  then show ?thesis
    using assms
    by (auto simp: generateImageForWordWithGemini_def split: prod.splits option.splits)
qed

section \<open>The claims\<close>

text \<open>
  C10. When the client is not initialised (\<open>ai\<close> is null), either call returns \<open>null\<close>
  after exactly one warning notification and does nothing else: no request, no delay, no
  change of the cooldown state or of the loading flag.
\<close>

theorem api_key_missing_returns_null:
  assumes "\<not> ai w"
  shows "generateWordDetailsWithGemini term service retries initialDelay w =
           (None, w\<lparr>trace := trace w @ [AddToast MsgApiKeyRequired Warning]\<rparr>)
       \<and> generateImageForWordWithGemini wordTerm service' retries' initialDelay' w =
           (None, w\<lparr>trace := trace w @ [AddToast MsgImageApiKeyRequired Warning]\<rparr>)"
  using assms
  by (simp add: generateWordDetailsWithGemini_def generateImageForWordWithGemini_def addToast_def)

theorem api_key_missing_returns_null_witness:
  "\<not> ai (initial_world False)
   \<and> generateWordDetailsWithGemini ''cat'' (\<lambda>i. Responds JNull) 2 7000 (initial_world False) =
       (None, (initial_world False)\<lparr>trace := [AddToast MsgApiKeyRequired Warning]\<rparr>)
   \<and> generateImageForWordWithGemini ''cat'' (\<lambda>i. Responds None) 1 8000 (initial_world False) =
       (None, (initial_world False)\<lparr>trace := [AddToast MsgImageApiKeyRequired Warning]\<rparr>)"
  using api_key_missing_returns_null [of "initial_world False" "''cat''" "\<lambda>i. Responds JNull" 2 7000
      "''cat''" "\<lambda>i. Responds None" 1 8000]
  by (simp add: initial_world_def)

text \<open>
  C1. While \<open>isCurrentlyGeminiQuotaExhausted\<close> is set, either call returns \<open>null\<close> at once:
  the only effect is one warning notification (the one about the missing key when the
  client is not initialised either), and no request is sent.
\<close>

theorem quota_exhausted_fast_fail:
  assumes "isCurrentlyGeminiQuotaExhausted w"
  shows "generateWordDetailsWithGemini term service retries initialDelay w =
           (None, w\<lparr>trace := trace w @
              [AddToast (if ai w then MsgQuotaSkipWord term else MsgApiKeyRequired) Warning]\<rparr>)
       \<and> generateImageForWordWithGemini wordTerm service' retries' initialDelay' w =
           (None, w\<lparr>trace := trace w @
              [AddToast (if ai w then MsgQuotaSkipImage wordTerm else MsgImageApiKeyRequired) Warning]\<rparr>)"
  using assms
  by (simp add: generateWordDetailsWithGemini_def generateImageForWordWithGemini_def addToast_def)

theorem quota_exhausted_fast_fail_witness:
  "isCurrentlyGeminiQuotaExhausted (setGeminiQuotaExhaustedCooldown None (initial_world True))
   \<and> fst (generateWordDetailsWithGemini ''cat'' (\<lambda>i. Responds JNull) 2 7000
            (setGeminiQuotaExhaustedCooldown None (initial_world True))) = None
   \<and> trace (snd (generateWordDetailsWithGemini ''cat'' (\<lambda>i. Responds JNull) 2 7000
            (setGeminiQuotaExhaustedCooldown None (initial_world True)))) =
       [AddToast (MsgQuotaExceeded None 15) Error, AddToast (MsgQuotaSkipWord ''cat'') Warning]
   \<and> fst (generateImageForWordWithGemini ''cat'' (\<lambda>i. Responds None) 1 8000
            (setGeminiQuotaExhaustedCooldown None (initial_world True))) = None
   \<and> trace (snd (generateImageForWordWithGemini ''cat'' (\<lambda>i. Responds None) 1 8000
            (setGeminiQuotaExhaustedCooldown None (initial_world True)))) =
       [AddToast (MsgQuotaExceeded None 15) Error, AddToast (MsgQuotaSkipImage ''cat'') Warning]"
proof -
  let ?w = "setGeminiQuotaExhaustedCooldown None (initial_world True)"
  have w: "?w = \<lparr> ai = True, isCurrentlyGeminiQuotaExhausted = True,
       quotaCooldownTimeoutId = Some 1, timers = [(1, 900000, None)], nextTimerId = 2, now = 0,
       globalLoading = False, trace = [AddToast (MsgQuotaExceeded None 15) Error] \<rparr>"
    by (simp add: setGeminiQuotaExhaustedCooldown_def initial_world_def Let_def addToast_def
        setTimeout_def GEMINI_QUOTA_COOLDOWN_MS_def)
  have h: "isCurrentlyGeminiQuotaExhausted ?w" by (simp add: w)
  show ?thesis
    using h quota_exhausted_fast_fail [OF h, of "''cat''" "\<lambda>i. Responds JNull" 2 7000
        "''cat''" "\<lambda>i. Responds None" 1 8000]
    by (simp add: w)
qed

text \<open>
  C6. Entering the cooldown is idempotent: \<open>setGeminiQuotaExhaustedCooldown\<close> called while
  the flag is set changes nothing at all (no notification, no new timer, the pending timer
  untouched), so calling it twice is the same as calling it once.
\<close>

theorem cooldown_entry_idempotent:
  "(isCurrentlyGeminiQuotaExhausted w \<longrightarrow> setGeminiQuotaExhaustedCooldown featureName w = w)
   \<and> setGeminiQuotaExhaustedCooldown featureName' (setGeminiQuotaExhaustedCooldown featureName w) =
       setGeminiQuotaExhaustedCooldown featureName w"
proof -
  have noop: "setGeminiQuotaExhaustedCooldown f v = v" if "isCurrentlyGeminiQuotaExhausted v" for f v
    using that by (simp add: setGeminiQuotaExhaustedCooldown_def)
  have "isCurrentlyGeminiQuotaExhausted (setGeminiQuotaExhaustedCooldown featureName w)"
    by (simp add: setGeminiQuotaExhaustedCooldown_def Let_def setTimeout_def addToast_def
        clearTimeout_def split: option.splits)
  with noop show ?thesis by blast
qed

theorem cooldown_entry_idempotent_witness:
  "isCurrentlyGeminiQuotaExhausted
     (setGeminiQuotaExhaustedCooldown (Some (WordLookup ''cat'')) (initial_world True))
   \<and> setGeminiQuotaExhaustedCooldown (Some (ImageGeneration ''dog''))
       (setGeminiQuotaExhaustedCooldown (Some (WordLookup ''cat'')) (initial_world True)) =
     \<lparr> ai = True, isCurrentlyGeminiQuotaExhausted = True, quotaCooldownTimeoutId = Some 1,
       timers = [(1, 900000, Some (WordLookup ''cat''))], nextTimerId = 2, now = 0,
       globalLoading = False,
       trace = [AddToast (MsgQuotaExceeded (Some (WordLookup ''cat'')) 15) Error] \<rparr>"
proof -
  let ?w = "setGeminiQuotaExhaustedCooldown (Some (WordLookup ''cat'')) (initial_world True)"
  have w: "?w = \<lparr> ai = True, isCurrentlyGeminiQuotaExhausted = True, quotaCooldownTimeoutId = Some 1,
       timers = [(1, 900000, Some (WordLookup ''cat''))], nextTimerId = 2, now = 0,
       globalLoading = False,
       trace = [AddToast (MsgQuotaExceeded (Some (WordLookup ''cat'')) 15) Error] \<rparr>"
    by (simp add: setGeminiQuotaExhaustedCooldown_def initial_world_def Let_def addToast_def
        setTimeout_def GEMINI_QUOTA_COOLDOWN_MS_def)
  have h: "isCurrentlyGeminiQuotaExhausted ?w" by (simp add: w)
  from cooldown_entry_idempotent [of ?w "Some (ImageGeneration ''dog'')" "Some (ImageGeneration ''dog'')"] h
  have "setGeminiQuotaExhaustedCooldown (Some (ImageGeneration ''dog'')) ?w = ?w" by blast
  with h show ?thesis by (simp add: w)
qed




text \<open>
  C5. In either call, the delays awaited between attempts are \<open>initialDelay * 2 ^ k\<close> for
  \<open>k = 0, 1, 2, ...\<close> in this order, one after each attempt but the last: with \<open>n\<close> requests
  sent there are \<open>n - 1\<close> delays. For \<open>initialDelay = 1000\<close> they are 1000, 2000, 4000, ...
\<close>

theorem backoff_delays:
  "sleeps (trace (snd (generateWordDetailsWithGemini term service retries initialDelay w))) =
     sleeps (trace w) @ map (\<lambda>k. initialDelay * 2 ^ k)
       [0..<requests (trace (snd (generateWordDetailsWithGemini term service retries initialDelay w)))
              - requests (trace w) - 1]
   \<and> sleeps (trace (snd (generateImageForWordWithGemini wordTerm service' retries' initialDelay' w))) =
     sleeps (trace w) @ map (\<lambda>k. initialDelay' * 2 ^ k)
       [0..<requests (trace (snd (generateImageForWordWithGemini wordTerm service' retries' initialDelay' w)))
              - requests (trace w) - 1]"
proof
  let ?w1 = "setGlobalLoading True w"
  let ?L = "retryLoop (wordDetailsAttempt term service retries) retries 0 initialDelay ?w1"
  note L = retryLoop_sleeps [where body = "wordDetailsAttempt term service retries"
      and retries = retries and i = 0 and d = initialDelay and w = ?w1,
      OF wordDetailsAttempt_requests wordDetailsAttempt_sleeps wordDetailsAttempt_continue]
  show "sleeps (trace (snd (generateWordDetailsWithGemini term service retries initialDelay w))) =
     sleeps (trace w) @ map (\<lambda>k. initialDelay * 2 ^ k)
       [0..<requests (trace (snd (generateWordDetailsWithGemini term service retries initialDelay w)))
              - requests (trace w) - 1]"
  proof (cases "fst ?L")
    case None
    with L have "?L = (None, ?w1)" by (auto split: if_splits)
    then show ?thesis by (simp add: generateWordDetailsWithGemini_def)
  next
    case (Some r)
    then have "?L = (Some r, snd ?L)" by (metis prod.collapse)
    with L show ?thesis
      by (auto simp: generateWordDetailsWithGemini_def split: prod.splits option.splits)
  qed
next
  let ?w1 = "setGlobalLoading True w"
  let ?L = "retryLoop (imageAttempt wordTerm service' retries') retries' 0 initialDelay' ?w1"
  note L = retryLoop_sleeps [where body = "imageAttempt wordTerm service' retries'"
      and retries = retries' and i = 0 and d = initialDelay' and w = ?w1,
      OF imageAttempt_requests imageAttempt_sleeps imageAttempt_continue]
  show "sleeps (trace (snd (generateImageForWordWithGemini wordTerm service' retries' initialDelay' w))) =
     sleeps (trace w) @ map (\<lambda>k. initialDelay' * 2 ^ k)
       [0..<requests (trace (snd (generateImageForWordWithGemini wordTerm service' retries' initialDelay' w)))
              - requests (trace w) - 1]"
  proof (cases "fst ?L")
    case None
    with L have "?L = (None, ?w1)" by (auto split: if_splits)
    then show ?thesis by (simp add: generateImageForWordWithGemini_def)
  next
    case (Some r)
    then have "?L = (Some r, snd ?L)" by (metis prod.collapse)
    with L show ?thesis
      by (auto simp: generateImageForWordWithGemini_def split: prod.splits option.splits)
  qed
qed

theorem backoff_delays_witness:
  "sleeps (trace (snd (generateWordDetailsWithGemini ''cat'' (\<lambda>i. Throws (JStr ''boom'')) 3 1000
                         (initial_world True)))) = [1000, 2000, 4000]
   \<and> sleeps (trace (snd (generateImageForWordWithGemini ''cat'' (\<lambda>i. Responds None) 3 1000
                         (initial_world True)))) = [1000, 2000, 4000]"
proof -
  have p: "\<not> isQuotaExhaustedError (parseGeminiError (JStr ''boom''))"
    "statusCode (parseGeminiError (JStr ''boom'')) \<noteq> Some 429"
    by (simp_all add: parseGeminiError_def extractError_def toLowerCase_def)
  have f: "firstImageBytes None = None" by (simp add: firstImageBytes_def)
  have r: "requests (trace (snd (generateWordDetailsWithGemini ''cat'' (\<lambda>i. Throws (JStr ''boom''))
                         3 1000 (initial_world True)))) = 4"
    by (simp add: generateWordDetailsWithGemini_def retryLoop_enter
        wordDetailsAttempt_generic_error [where e = "JStr ''boom''"] p initial_world_def
        setGlobalLoading_def)
  have r': "requests (trace (snd (generateImageForWordWithGemini ''cat'' (\<lambda>i. Responds None)
                         3 1000 (initial_world True)))) = 4"
    by (simp add: generateImageForWordWithGemini_def retryLoop_enter
        imageAttempt_incomplete [where responses = "\<lambda>i. None"] f initial_world_def
        setGlobalLoading_def sleep_no_timers addToast_def request_def)
  have t: "trace (initial_world True) = []" by (simp add: initial_world_def)
  have u: "[0..<3] = [0, 1, 2]" by (simp add: numeral_3_eq_3)
  show ?thesis
    using backoff_delays [of "''cat''" "\<lambda>i. Throws (JStr ''boom'')" 3 1000 "initial_world True"
        "''cat''" "\<lambda>i. Responds None" 3 1000]
    by (simp add: r r' t u)
qed




text \<open>
  C7. Once the cooldown has been entered from an idle state, nothing happens while less
  than \<open>GEMINI_QUOTA_COOLDOWN_MS\<close> (15 minutes) have passed: the flag stays set and no
  notification is emitted. When that time has passed the callback has run exactly once:
  the flag is cleared, \<open>quotaCooldownTimeoutId\<close> is null, no timer is pending, and exactly one
  info notification has been added after the one of the entry. It makes no difference
  whether the time passes at once or in steps.
\<close>

theorem cooldown_elapses_after_fixed_time:
  assumes "quota_inv w" and "\<not> isCurrentlyGeminiQuotaExhausted w"
  shows "GEMINI_QUOTA_COOLDOWN_MS = 15 * 60 * 1000
     \<and> advance_time d (setGeminiQuotaExhaustedCooldown featureName w) =
         (if d < GEMINI_QUOTA_COOLDOWN_MS
          then (setGeminiQuotaExhaustedCooldown featureName w)\<lparr>now := now w + d\<rparr>
          else w\<lparr>isCurrentlyGeminiQuotaExhausted := False,
                 quotaCooldownTimeoutId := None,
                 timers := [],
                 nextTimerId := nextTimerId w + 1,
                 now := now w + d,
                 trace := trace w @ [AddToast (MsgQuotaExceeded featureName 15) Error,
                                     AddToast (MsgCooldownOver featureName) Info]\<rparr>)
     \<and> advance_time d' (advance_time d (setGeminiQuotaExhaustedCooldown featureName w)) =
         advance_time (d + d') (setGeminiQuotaExhaustedCooldown featureName w)"
proof -
  from assms have idle: "timers w = []" "quotaCooldownTimeoutId w = None"
    by (simp_all add: quota_inv_def)
  show ?thesis
    unfolding setCooldown_idle [OF idle assms(2)]
    by (simp add: advance_time_def Let_def fold_cooldownElapsed elapsedToasts_def
        GEMINI_QUOTA_COOLDOWN_MS_def add.assoc)
qed

theorem cooldown_elapses_after_fixed_time_witness:
  "quota_inv (initial_world True) \<and> \<not> isCurrentlyGeminiQuotaExhausted (initial_world True)
   \<and> advance_time 899999 (setGeminiQuotaExhaustedCooldown (Some (WordLookup ''cat'')) (initial_world True)) =
       \<lparr> ai = True, isCurrentlyGeminiQuotaExhausted = True, quotaCooldownTimeoutId = Some 1,
         timers = [(1, 900000, Some (WordLookup ''cat''))], nextTimerId = 2, now = 899999,
         globalLoading = False,
         trace = [AddToast (MsgQuotaExceeded (Some (WordLookup ''cat'')) 15) Error] \<rparr>
   \<and> advance_time 900000 (setGeminiQuotaExhaustedCooldown (Some (WordLookup ''cat'')) (initial_world True)) =
       \<lparr> ai = True, isCurrentlyGeminiQuotaExhausted = False, quotaCooldownTimeoutId = None,
         timers = [], nextTimerId = 2, now = 900000, globalLoading = False,
         trace = [AddToast (MsgQuotaExceeded (Some (WordLookup ''cat'')) 15) Error,
                  AddToast (MsgCooldownOver (Some (WordLookup ''cat''))) Info] \<rparr>"
proof -
  have h: "quota_inv (initial_world True)" "\<not> isCurrentlyGeminiQuotaExhausted (initial_world True)"
    by (simp_all add: quota_inv_def initial_world_def)
  have e: "setGeminiQuotaExhaustedCooldown (Some (WordLookup ''cat'')) (initial_world True) =
       \<lparr> ai = True, isCurrentlyGeminiQuotaExhausted = True, quotaCooldownTimeoutId = Some 1,
         timers = [(1, 900000, Some (WordLookup ''cat''))], nextTimerId = 2, now = 0,
         globalLoading = False,
         trace = [AddToast (MsgQuotaExceeded (Some (WordLookup ''cat'')) 15) Error] \<rparr>"
    by (simp add: setGeminiQuotaExhaustedCooldown_def initial_world_def Let_def addToast_def
        setTimeout_def GEMINI_QUOTA_COOLDOWN_MS_def)
  show ?thesis
    using h cooldown_elapses_after_fixed_time [OF h, of 899999 "Some (WordLookup ''cat'')" 0]
      cooldown_elapses_after_fixed_time [OF h, of 900000 "Some (WordLookup ''cat'')" 0]
    by (simp add: e GEMINI_QUOTA_COOLDOWN_MS_def) (simp add: initial_world_def)
qed







end
